theory Spec2Isabelle
  imports Main "HOL-Library.Sublist"
begin

section \<open>Strings\<close>

text \<open>
  Python's \<open>str\<close> is modelled by \<open>string\<close>. The three character classes and
  \<open>str.lower\<close> are the ASCII ones: a character outside the three alphabets below is in
  no class and is left alone by \<open>lower\<close>.
\<close>

definition ascii_uppercase :: string where
  "ascii_uppercase = ''ABCDEFGHIJKLMNOPQRSTUVWXYZ''"

definition ascii_lowercase :: string where
  "ascii_lowercase = ''abcdefghijklmnopqrstuvwxyz''"

definition digits :: string where
  "digits = ''0123456789''"

definition isupper :: "char \<Rightarrow> bool" where
  "isupper c = (c \<in> set ascii_uppercase)"

definition islower :: "char \<Rightarrow> bool" where
  "islower c = (c \<in> set ascii_lowercase)"

definition isdigit :: "char \<Rightarrow> bool" where
  "isdigit c = (c \<in> set digits)"

definition lower_char :: "char \<Rightarrow> char" where
  "lower_char c =
     (case map_of (zip ascii_uppercase ascii_lowercase) c of Some l \<Rightarrow> l | None \<Rightarrow> c)"

definition lower :: "string \<Rightarrow> string" where
  "lower v = map lower_char v"

definition startswith :: "string \<Rightarrow> string \<Rightarrow> bool" where
  "startswith s p = prefix p s"

definition endswith :: "string \<Rightarrow> string \<Rightarrow> bool" where
  "endswith s p = suffix p s"

section \<open>Tables\<close>

type_synonym uuid = nat
type_synonym datetime = nat

text \<open>
  Modelled from the spec: \<open>app/models.py\<close> (the ORM classes \<open>User\<close>,
  \<open>Session\<close> and \<open>PasswordResetToken\<close>) is missing. The three records have the
  columns of migration 001 (\<open>src/alembic/versions/001_initial_schema.py\<close>), which are
  the columns of section 6 of the specification; \<open>is_active\<close> defaults to true and
  \<open>used\<close> to false. A table is the list of its rows, a query with \<open>.first()\<close> is
  \<open>find\<close> on that list.
\<close>

record user =
  u_id :: uuid
  email :: string
  hashed_password :: string
  full_name :: "string option"
  is_active :: bool
  u_created_at :: datetime
  updated_at :: datetime

record session =
  s_id :: uuid
  s_user_id :: uuid
  session_token :: string
  s_expires_at :: datetime
  s_created_at :: datetime
  ip_address :: "string option"
  user_agent :: string

record password_reset_token =
  t_id :: uuid
  t_user_id :: uuid
  token :: string
  t_expires_at :: datetime
  used :: bool
  t_created_at :: datetime

record db =
  users :: "user list"
  sessions :: "session list"
  password_reset_tokens :: "password_reset_token list"

text \<open>
  The primary keys and unique constraints of the migration. \<open>db.add\<close> followed by
  \<open>db.commit\<close> of a row that breaks one of them raises \<open>IntegrityError\<close> and
  stores nothing, and so does a user row whose e-mail fails the check constraint. The
  foreign keys are left out: the owner of every session and reset token that a handler
  adds is a user row it has just read.
\<close>

definition add_user :: "user \<Rightarrow> db \<Rightarrow> db option" where
  "add_user u d =
     (if u_id u \<in> set (map u_id (users d)) \<or> email u \<in> set (map email (users d))
         \<or> \<not> endswith (email u) ''@vysusgroup.com'' then None
      else Some (d\<lparr>users := users d @ [u]\<rparr>))"

definition add_session :: "session \<Rightarrow> db \<Rightarrow> db option" where
  "add_session s d =
     (if s_id s \<in> set (map s_id (sessions d))
         \<or> session_token s \<in> set (map session_token (sessions d)) then None
      else Some (d\<lparr>sessions := sessions d @ [s]\<rparr>))"

definition add_password_reset_token :: "password_reset_token \<Rightarrow> db \<Rightarrow> db option" where
  "add_password_reset_token t d =
     (if t_id t \<in> set (map t_id (password_reset_tokens d))
         \<or> token t \<in> set (map token (password_reset_tokens d)) then None
      else Some (d\<lparr>password_reset_tokens := password_reset_tokens d @ [t]\<rparr>))"

section \<open>Errors\<close>

text \<open>
  \<open>HTTPException status_code detail\<close> is what a handler raises.
  \<open>RequestValidationError\<close> is the 422 answer that the framework gives when a field
  validator of the request schema raises \<open>ValueError\<close>; it lists the failing fields
  with the validator's message. \<open>IntegrityError\<close> is a commit refused by the store.
\<close>

datatype error =
    HTTPException nat string
  | RequestValidationError "(string \<times> string) list"
  | IntegrityError

text \<open>The names the specification gives to the outcomes.\<close>

definition Conflict :: error where
  "Conflict = HTTPException 400 ''An account with this email already exists''"

definition Unauthorized :: error where
  "Unauthorized = HTTPException 401 ''Invalid email or password''"

definition Forbidden :: error where
  "Forbidden = HTTPException 403 ''Account is deactivated''"

definition InvalidOrExpired :: error where
  "InvalidOrExpired = HTTPException 400 ''Invalid or expired reset token''"

section \<open>Request schemas (\<open>app/schemas.py\<close>)\<close>

text \<open>
  A field validator returns the value to store (\<open>Inr\<close>) or raises \<open>ValueError\<close>
  with a message (\<open>Inl\<close>). The argument of the e-mail validator is a string that has
  already passed \<open>EmailStr\<close>.
\<close>

definition validate_vysus_email :: "string \<Rightarrow> string + string" where
  "validate_vysus_email v =
     (if \<not> endswith (lower v) ''@vysusgroup.com''
      then Inl ''Only @vysusgroup.com emails are allowed''
      else Inr (lower v))"

definition UserCreate_validate_password :: "string \<Rightarrow> string + string" where
  "UserCreate_validate_password v =
     (if length v < 10 then Inl ''Password must be at least 10 characters''
      else if \<not> list_ex isupper v
        then Inl ''Password must contain at least one uppercase letter''
      else if \<not> list_ex islower v
        then Inl ''Password must contain at least one lowercase letter''
      else if \<not> list_ex isdigit v
        then Inl ''Password must contain at least one number''
      else Inr v)"

definition ResetPasswordRequest_validate_password :: "string \<Rightarrow> string + string" where
  "ResetPasswordRequest_validate_password v =
     (if length v < 10 then Inl ''Password must be at least 10 characters''
      else if \<not> list_ex isupper v
        then Inl ''Password must contain at least one uppercase letter''
      else if \<not> list_ex islower v
        then Inl ''Password must contain at least one lowercase letter''
      else if \<not> list_ex isdigit v
        then Inl ''Password must contain at least one number''
      else Inr v)"

record user_create =
  uc_email :: string
  uc_password :: string
  uc_full_name :: "string option"

record user_login =
  ul_email :: string
  ul_password :: string

record forgot_password_request =
  fp_email :: string

record reset_password_request =
  rp_token :: string
  new_password :: string

text \<open>
  Building a schema object runs the validator of every field and collects the failures;
  the object exists only when there is none.
\<close>

definition UserCreate :: "string \<Rightarrow> string \<Rightarrow> string option \<Rightarrow> error + user_create" where
  "UserCreate e p n =
     (case (validate_vysus_email e, UserCreate_validate_password p) of
        (Inr e', Inr p') \<Rightarrow> Inr \<lparr>uc_email = e', uc_password = p', uc_full_name = n\<rparr>
      | (Inl m, Inr p') \<Rightarrow> Inl (RequestValidationError [(''email'', m)])
      | (Inr e', Inl m) \<Rightarrow> Inl (RequestValidationError [(''password'', m)])
      | (Inl m, Inl m') \<Rightarrow>
          Inl (RequestValidationError [(''email'', m), (''password'', m')]))"

definition ResetPasswordRequest :: "string \<Rightarrow> string \<Rightarrow> error + reset_password_request" where
  "ResetPasswordRequest t p =
     (case ResetPasswordRequest_validate_password p of
        Inr p' \<Rightarrow> Inr \<lparr>rp_token = t, new_password = p'\<rparr>
      | Inl m \<Rightarrow> Inl (RequestValidationError [(''new_password'', m)]))"

section \<open>Configuration and capabilities\<close>

text \<open>The fields of \<open>Settings\<close> (\<open>app/config.py\<close>) that the handlers read.\<close>

record settings =
  session_expire_days :: nat
  password_reset_expire_hours :: nat
  environment :: string

definition default_settings :: settings where
  "default_settings =
     \<lparr>session_expire_days = 7, password_reset_expire_hours = 1,
      environment = ''development''\<rparr>"

text \<open>
  \<open>pwd_context\<close> (\<open>app/auth/utils.py\<close>) is passlib's \<open>CryptContext\<close>, a library
  outside the repository: its two operations are parameters. Hashing draws a salt, the
  first argument of \<open>ctx_hash\<close>.
\<close>

record pwd_context =
  ctx_hash :: "string \<Rightarrow> string \<Rightarrow> string"
  ctx_verify :: "string \<Rightarrow> string \<Rightarrow> bool"

text \<open>
  What the clock and the random sources return during one request:
  \<open>datetime.utcnow()\<close>, the primary key of a new row, \<open>secrets.token_urlsafe(32)\<close>
  and the salt drawn by the hash. Time is counted in seconds.
\<close>

record runtime =
  utcnow :: datetime
  uuid4 :: uuid
  token_urlsafe :: string
  salt :: string

definition hash_password :: "pwd_context \<Rightarrow> runtime \<Rightarrow> string \<Rightarrow> string" where
  "hash_password ctx rt password = ctx_hash ctx (salt rt) password"

definition verify_password :: "pwd_context \<Rightarrow> string \<Rightarrow> string \<Rightarrow> bool" where
  "verify_password ctx plain_password hashed = ctx_verify ctx plain_password hashed"

definition generate_session_token :: "runtime \<Rightarrow> string" where
  "generate_session_token rt = token_urlsafe rt"

definition generate_password_reset_token :: "runtime \<Rightarrow> string" where
  "generate_password_reset_token rt = token_urlsafe rt"

definition get_session_expiry :: "settings \<Rightarrow> runtime \<Rightarrow> datetime" where
  "get_session_expiry cfg rt = utcnow rt + session_expire_days cfg * 24 * 60 * 60"

definition get_password_reset_expiry :: "settings \<Rightarrow> runtime \<Rightarrow> datetime" where
  "get_password_reset_expiry cfg rt = utcnow rt + password_reset_expire_hours cfg * 60 * 60"

text \<open>
  The plaintext scheme of passlib, the simplest instance of the interface: the digest is
  the password. It is the context of the concrete examples below.
\<close>

definition plaintext_context :: pwd_context where
  "plaintext_context = \<lparr>ctx_hash = (\<lambda>s p. p), ctx_verify = (\<lambda>p h. p = h)\<rparr>"

section \<open>Session lookup (\<open>app/auth/dependencies.py\<close>)\<close>

text \<open>
  Every operation on the store takes the store and returns its result with the store
  after the call. A handler that raises before \<open>db.commit()\<close> leaves the store as it
  was: the pending changes of the request are dropped with its session.
\<close>

definition get_current_user_from_cookie ::
  "runtime \<Rightarrow> string \<Rightarrow> db \<Rightarrow> user option \<times> db" where
  "get_current_user_from_cookie rt tok d =
     (if tok = [] then (None, d)
      else
        (case find (\<lambda>s. session_token s = tok \<and> s_expires_at s > utcnow rt) (sessions d) of
           None \<Rightarrow> (None, d)
         | Some s \<Rightarrow> (find (\<lambda>u. u_id u = s_user_id s \<and> is_active u = True) (users d), d)))"

text \<open>
  A cookie is \<open>None\<close> when the request has none of that name; \<open>not session_token\<close>
  holds for \<open>None\<close> and for the empty string.
\<close>

definition get_current_user :: "runtime \<Rightarrow> string option \<Rightarrow> db \<Rightarrow> (error + user) \<times> db" where
  "get_current_user rt cookie d =
     (case cookie of
        None \<Rightarrow> (Inl (HTTPException 401 ''Not authenticated''), d)
      | Some tok \<Rightarrow>
          if tok = [] then (Inl (HTTPException 401 ''Not authenticated''), d)
          else
            (case get_current_user_from_cookie rt tok d of
               (None, d') \<Rightarrow> (Inl (HTTPException 401 ''Invalid or expired session''), d')
             | (Some u, d') \<Rightarrow> (Inr u, d')))"

section \<open>The handlers (\<open>app/auth/router.py\<close>)\<close>

text \<open>
  The rate limiter is not part of the model. The handlers take the schema object that
  the framework has built from the request body.
\<close>

definition register ::
  "pwd_context \<Rightarrow> runtime \<Rightarrow> user_create \<Rightarrow> db \<Rightarrow> (error + string) \<times> db" where
  "register ctx rt user_data d =
     (case find (\<lambda>u. email u = lower (uc_email user_data)) (users d) of
        Some existing_user \<Rightarrow>
          (Inl (HTTPException 400 ''An account with this email already exists''), d)
      | None \<Rightarrow>
          (let new_user =
             \<lparr>u_id = uuid4 rt,
              email = lower (uc_email user_data),
              hashed_password = hash_password ctx rt (uc_password user_data),
              full_name = uc_full_name user_data,
              is_active = True,
              u_created_at = utcnow rt,
              updated_at = utcnow rt\<rparr>
           in case add_user new_user d of
                None \<Rightarrow> (Inl IntegrityError, d)
              | Some d' \<Rightarrow> (Inr ''Registration successful. You can now log in.'', d')))"

record set_cookie =
  key :: string
  cookie_value :: string
  httponly :: bool
  secure :: bool
  samesite :: string
  max_age :: nat

definition login ::
  "pwd_context \<Rightarrow> settings \<Rightarrow> runtime \<Rightarrow> string option \<Rightarrow> string \<Rightarrow> user_login \<Rightarrow> db
     \<Rightarrow> (error + user \<times> set_cookie) \<times> db" where
  "login ctx cfg rt client_host ua user_data d =
     (case find (\<lambda>u. email u = lower (ul_email user_data)) (users d) of
        None \<Rightarrow> (Inl (HTTPException 401 ''Invalid email or password''), d)
      | Some u \<Rightarrow>
          if \<not> verify_password ctx (ul_password user_data) (hashed_password u)
          then (Inl (HTTPException 401 ''Invalid email or password''), d)
          else if \<not> is_active u
          then (Inl (HTTPException 403 ''Account is deactivated''), d)
          else
            (let tok = generate_session_token rt;
                 s = \<lparr>s_id = uuid4 rt,
                      s_user_id = u_id u,
                      session_token = tok,
                      s_expires_at = get_session_expiry cfg rt,
                      s_created_at = utcnow rt,
                      ip_address = client_host,
                      user_agent = take 500 ua\<rparr>
             in case add_session s d of
                  None \<Rightarrow> (Inl IntegrityError, d)
                | Some d' \<Rightarrow>
                    (Inr (u, \<lparr>key = ''session_token'',
                              cookie_value = tok,
                              httponly = True,
                              secure = (environment cfg = ''production''),
                              samesite = ''lax'',
                              max_age = session_expire_days cfg * 24 * 60 * 60\<rparr>), d')))"

text \<open>The answer of \<open>logout\<close> is its message and the cookie it deletes.\<close>

definition logout :: "string option \<Rightarrow> db \<Rightarrow> (string \<times> string) \<times> db" where
  "logout cookie d =
     ((''Logged out successfully'', ''session_token''),
      (case cookie of
         None \<Rightarrow> d
       | Some tok \<Rightarrow>
           if tok = [] then d
           else d\<lparr>sessions := filter (\<lambda>s. session_token s \<noteq> tok) (sessions d)\<rparr>))"

definition get_me :: "runtime \<Rightarrow> string option \<Rightarrow> db \<Rightarrow> (error + user) \<times> db" where
  "get_me rt cookie d = get_current_user rt cookie d"

definition forgot_password_message :: string where
  "forgot_password_message =
     ''If an account exists with this email, you will receive a password reset link.''"

text \<open>
  The e-mail is sent after the commit, inside \<open>try\<close> with \<open>except Exception: pass\<close>:
  neither its success nor its failure changes the answer or the store, and it is left out.
\<close>

definition forgot_password ::
  "settings \<Rightarrow> runtime \<Rightarrow> forgot_password_request \<Rightarrow> db \<Rightarrow> (error + string) \<times> db" where
  "forgot_password cfg rt data d =
     (case find (\<lambda>u. email u = lower (fp_email data)) (users d) of
        None \<Rightarrow> (Inr forgot_password_message, d)
      | Some u \<Rightarrow>
          if is_active u then
            (let d1 = d\<lparr>password_reset_tokens :=
                         map (\<lambda>t. if t_user_id t = u_id u \<and> used t = False
                                   then t\<lparr>used := True\<rparr> else t)
                             (password_reset_tokens d)\<rparr>;
                 reset_token =
                   \<lparr>t_id = uuid4 rt,
                    t_user_id = u_id u,
                    token = generate_password_reset_token rt,
                    t_expires_at = get_password_reset_expiry cfg rt,
                    used = False,
                    t_created_at = utcnow rt\<rparr>
             in case add_password_reset_token reset_token d1 of
                  None \<Rightarrow> (Inl IntegrityError, d)
                | Some d2 \<Rightarrow> (Inr forgot_password_message, d2))
          else (Inr forgot_password_message, d))"

definition reset_password_message :: string where
  "reset_password_message =
     ''Password reset successful. Please log in with your new password.''"

text \<open>
  The three changes are flushed by the one \<open>db.commit()\<close> at the end: the user row
  and the token row are updated by primary key, the sessions are deleted by owner.
\<close>

definition reset_password ::
  "pwd_context \<Rightarrow> runtime \<Rightarrow> reset_password_request \<Rightarrow> db \<Rightarrow> (error + string) \<times> db" where
  "reset_password ctx rt data d =
     (case find (\<lambda>t. token t = rp_token data \<and> used t = False \<and> t_expires_at t > utcnow rt)
             (password_reset_tokens d) of
        None \<Rightarrow> (Inl (HTTPException 400 ''Invalid or expired reset token''), d)
      | Some reset_token \<Rightarrow>
          (case find (\<lambda>u. u_id u = t_user_id reset_token) (users d) of
             None \<Rightarrow> (Inl (HTTPException 400 ''User not found''), d)
           | Some u \<Rightarrow>
               (Inr reset_password_message,
                d\<lparr>users :=
                    map (\<lambda>r. if u_id r = u_id u
                              then r\<lparr>hashed_password := hash_password ctx rt (new_password data),
                                     updated_at := utcnow rt\<rparr>
                              else r) (users d),
                  password_reset_tokens :=
                    map (\<lambda>t. if t_id t = t_id reset_token then t\<lparr>used := True\<rparr> else t)
                        (password_reset_tokens d),
                  sessions := filter (\<lambda>s. s_user_id s \<noteq> u_id u) (sessions d)\<rparr>)))"

text \<open>
  The two routes whose schema has field validators: the body is parsed first, and a
  body that fails never reaches the handler.
\<close>

definition post_register ::
  "pwd_context \<Rightarrow> runtime \<Rightarrow> string \<Rightarrow> string \<Rightarrow> string option \<Rightarrow> db \<Rightarrow> (error + string) \<times> db" where
  "post_register ctx rt e p n d =
     (case UserCreate e p n of
        Inl err \<Rightarrow> (Inl err, d)
      | Inr user_data \<Rightarrow> register ctx rt user_data d)"

definition post_reset_password ::
  "pwd_context \<Rightarrow> runtime \<Rightarrow> string \<Rightarrow> string \<Rightarrow> db \<Rightarrow> (error + string) \<times> db" where
  "post_reset_password ctx rt t p d =
     (case ResetPasswordRequest t p of
        Inl err \<Rightarrow> (Inl err, d)
      | Inr data \<Rightarrow> reset_password ctx rt data d)"

section \<open>The authentication middleware (\<open>app/main.py\<close>)\<close>

definition PUBLIC_PATHS :: "string list" where
  "PUBLIC_PATHS =
     [''/login'', ''/register'', ''/reset-password'', ''/forgot-password'',
      ''/api/auth/'', ''/api/health'', ''/favicon.ico'']"

text \<open>
  The middleware either hands the request on (\<open>call_next\<close>, with the user it has put into
  \<open>request.state\<close>, if any) or answers itself with a redirect; the last argument of
  \<open>RedirectResponse\<close> lists the cookies the answer deletes.
\<close>

datatype response =
    CallNext "user option"
  | RedirectResponse string nat "string list"

text \<open>
  \<open>store_fault\<close> says that the store cannot be reached during this request; the
  first query then raises, which the \<open>try\<close> block catches. The session of the middleware is
  closed without a commit.
\<close>

definition dispatch ::
  "runtime \<Rightarrow> bool \<Rightarrow> string \<Rightarrow> string option \<Rightarrow> db \<Rightarrow> response \<times> db" where
  "dispatch rt store_fault path cookie d =
     (if list_ex (\<lambda>p. startswith path p) PUBLIC_PATHS then (CallNext None, d)
      else
        (case cookie of
           None \<Rightarrow> (RedirectResponse ''/login'' 302 [], d)
         | Some tok \<Rightarrow>
             if tok = [] then (RedirectResponse ''/login'' 302 [], d)
             else if store_fault then (RedirectResponse ''/login'' 302 [], d)
             else
               (case get_current_user_from_cookie rt tok d of
                  (None, d') \<Rightarrow> (RedirectResponse ''/login'' 302 [''session_token''], d')
                | (Some u, d') \<Rightarrow> (CallNext (Some u), d'))))"



section \<open>Constraints of the schema and a sample store\<close>

text \<open>The unique constraints on the looked-up columns, as properties of a store.\<close>

definition unique_session_tokens :: "db \<Rightarrow> bool" where
  "unique_session_tokens d = distinct (map session_token (sessions d))"

definition unique_reset_tokens :: "db \<Rightarrow> bool" where
  "unique_reset_tokens d = distinct (map token (password_reset_tokens d))"

definition unique_emails :: "db \<Rightarrow> bool" where
  "unique_emails d = distinct (map email (users d))"

text \<open>The unused reset tokens of an account, and the stores with at most one each.\<close>

definition unused_tokens_of :: "uuid \<Rightarrow> db \<Rightarrow> password_reset_token list" where
  "unused_tokens_of uid d =
     filter (\<lambda>t. t_user_id t = uid \<and> \<not> used t) (password_reset_tokens d)"

definition at_most_one_unused :: "db \<Rightarrow> bool" where
  "at_most_one_unused d =
     list_all (\<lambda>t. length (unused_tokens_of (t_user_id t) d) \<le> 1) (password_reset_tokens d)"

text \<open>The password policy in the words of the specification.\<close>

definition policy_conforming :: "string \<Rightarrow> bool" where
  "policy_conforming p =
     (10 \<le> length p \<and> list_ex isupper p \<and> list_ex islower p \<and> list_ex isdigit p)"

text \<open>
  A store with an active and a deactivated account, one session each and one pending
  reset token; digests are those of \<open>plaintext_context\<close>.
\<close>

definition alice :: user where
  "alice =
     \<lparr>u_id = 1, email = ''alice@vysusgroup.com'', hashed_password = ''GoodPass123'',
      full_name = Some ''Alice'', is_active = True, u_created_at = 0, updated_at = 0\<rparr>"

definition bob :: user where
  "bob =
     \<lparr>u_id = 2, email = ''bob@vysusgroup.com'', hashed_password = ''BobsPass456'',
      full_name = None, is_active = False, u_created_at = 0, updated_at = 0\<rparr>"

definition alice_session :: session where
  "alice_session =
     \<lparr>s_id = 10, s_user_id = 1, session_token = ''sess-alice'', s_expires_at = 1000,
      s_created_at = 0, ip_address = None, user_agent = ''curl''\<rparr>"

definition bob_session :: session where
  "bob_session =
     \<lparr>s_id = 11, s_user_id = 2, session_token = ''sess-bob'', s_expires_at = 1000,
      s_created_at = 0, ip_address = None, user_agent = ''curl''\<rparr>"

definition alice_reset :: password_reset_token where
  "alice_reset =
     \<lparr>t_id = 20, t_user_id = 1, token = ''reset-alice'', t_expires_at = 500,
      used = False, t_created_at = 0\<rparr>"

definition sample_db :: db where
  "sample_db =
     \<lparr>users = [alice, bob], sessions = [alice_session, bob_session],
      password_reset_tokens = [alice_reset]\<rparr>"

definition sample_runtime :: runtime where
  "sample_runtime =
     \<lparr>utcnow = 100, uuid4 = 30, token_urlsafe = ''fresh-token'', salt = ''salt''\<rparr>"

lemmas string_defs =
  ascii_uppercase_def ascii_lowercase_def digits_def isupper_def islower_def isdigit_def
  lower_char_def lower_def startswith_def endswith_def suffix_to_prefix

lemmas sample_defs =
  alice_def bob_def alice_session_def bob_session_def alice_reset_def sample_db_def
  sample_runtime_def plaintext_context_def default_settings_def

section \<open>Auxiliary facts\<close>

lemma find_unique_key:
  "distinct (map f xs) \<Longrightarrow> x \<in> set xs \<Longrightarrow>
   find (\<lambda>y. f y = f x \<and> P y) xs = (if P x then Some x else None)"
proof (induction xs)
  case Nil
  then show ?case by simp
next
  case (Cons a xs)
  show ?case
  proof (cases "a = x")
    case True
    with Cons.prems have "\<forall>y\<in>set xs. f y \<noteq> f x" by (auto simp: image_iff)
    then have "find (\<lambda>y. f y = f x \<and> P y) xs = None" by (auto simp: find_None_iff)
    with True show ?thesis by simp
  next
    case False
    with Cons.prems have "x \<in> set xs" "f a \<noteq> f x" by (auto simp: image_iff)
    with Cons show ?thesis by simp
  qed
qed

lemma find_unique_key_only:
  "distinct (map f xs) \<Longrightarrow> x \<in> set xs \<Longrightarrow> find (\<lambda>y. f y = f x) xs = Some x"
  using find_unique_key [where P = "\<lambda>_. True"] by simp


lemma ResetPasswordRequest_ok:
  "policy_conforming p \<Longrightarrow> ResetPasswordRequest t p = Inr \<lparr>rp_token = t, new_password = p\<rparr>"
  by (simp add: ResetPasswordRequest_def ResetPasswordRequest_validate_password_def
      policy_conforming_def)




section \<open>Validation of e-mail domain and password (C8)\<close>



lemma find_email_None:
  "\<forall>u\<in>set us. email u \<noteq> e \<Longrightarrow> find (\<lambda>u. email u = e) us = None"
  by (auto simp: find_None_iff)

lemma find_email_Some:
  "unique_emails d \<Longrightarrow> u \<in> set (users d) \<Longrightarrow> find (\<lambda>x. email x = email u) (users d) = Some u"
  unfolding unique_emails_def by (rule find_unique_key_only)

section \<open>Login failures (C3, C10)\<close>

text \<open>
  C3. A login with an e-mail that matches no stored account and a login with the e-mail
  of an existing active account and a password that fails verification get the same
  answer: \<open>Unauthorized\<close>, the exception with status 401 and the one detail text
  \<open>Invalid email or password\<close>. Neither call changes the store, and nothing in the
  answers tells the two cases apart.
\<close>

theorem login_indistinguishable:
  assumes "lower e1 \<notin> set (map email (users d))"
    and "unique_emails d" and "u \<in> set (users d)" and "email u = lower e2"
    and "is_active u"
    and "\<not> verify_password ctx p2 (hashed_password u)"
  shows "login ctx cfg rt1 h1 a1 \<lparr>ul_email = e1, ul_password = p1\<rparr> d = (Inl Unauthorized, d)
       \<and> login ctx cfg rt2 h2 a2 \<lparr>ul_email = e2, ul_password = p2\<rparr> d = (Inl Unauthorized, d)
       \<and> fst (login ctx cfg rt1 h1 a1 \<lparr>ul_email = e1, ul_password = p1\<rparr> d)
           = fst (login ctx cfg rt2 h2 a2 \<lparr>ul_email = e2, ul_password = p2\<rparr> d)"
proof -
  from assms(1) have "\<forall>x\<in>set (users d). email x \<noteq> lower e1"
    by (auto simp: image_iff)
  then have none: "find (\<lambda>x. email x = lower e1) (users d) = None"
    by (rule find_email_None)
  have some: "find (\<lambda>x. email x = lower e2) (users d) = Some u"
    using find_email_Some [OF assms(2,3)] assms(4) by simp
  have 1: "login ctx cfg rt1 h1 a1 \<lparr>ul_email = e1, ul_password = p1\<rparr> d = (Inl Unauthorized, d)"
    using none by (simp add: login_def Unauthorized_def)
  have 2: "login ctx cfg rt2 h2 a2 \<lparr>ul_email = e2, ul_password = p2\<rparr> d = (Inl Unauthorized, d)"
    using some assms(6) by (simp add: login_def Unauthorized_def)
  from 1 2 show ?thesis by simp
qed

theorem login_indistinguishable_witness:
  "lower ''Nobody@vysusgroup.com'' \<notin> set (map email (users sample_db))
   \<and> unique_emails sample_db \<and> alice \<in> set (users sample_db)
   \<and> email alice = lower ''Alice@vysusgroup.com'' \<and> is_active alice
   \<and> \<not> verify_password plaintext_context ''WrongPass999'' (hashed_password alice)
   \<and> login plaintext_context default_settings sample_runtime None ''curl''
        \<lparr>ul_email = ''Nobody@vysusgroup.com'', ul_password = ''GoodPass123''\<rparr> sample_db
      = (Inl Unauthorized, sample_db)
   \<and> login plaintext_context default_settings sample_runtime None ''curl''
        \<lparr>ul_email = ''Alice@vysusgroup.com'', ul_password = ''WrongPass999''\<rparr> sample_db
      = (Inl Unauthorized, sample_db)"
proof -
  have h1: "lower ''Nobody@vysusgroup.com'' \<notin> set (map email (users sample_db))"
    by (simp add: sample_defs string_defs)
  have h2: "unique_emails sample_db" by (simp add: unique_emails_def sample_defs)
  have h3: "alice \<in> set (users sample_db)" by (simp add: sample_db_def)
  have h4: "email alice = lower ''Alice@vysusgroup.com''" by (simp add: sample_defs string_defs)
  have h5: "is_active alice" by (simp add: alice_def)
  have h6: "\<not> verify_password plaintext_context ''WrongPass999'' (hashed_password alice)"
    by (simp add: verify_password_def sample_defs)
  note th = login_indistinguishable [OF h1 h2 h3 h4 h5 h6, of default_settings sample_runtime
      None "''curl''" "''GoodPass123''" sample_runtime None "''curl''"]
  from h1 h2 h3 h4 h5 h6 th [THEN conjunct1] th [THEN conjunct2, THEN conjunct1]
  show ?thesis by (intro conjI)
qed

text \<open>
  C10. For a deactivated account a login with a wrong password is answered with
  \<open>Unauthorized\<close>, not \<open>Forbidden\<close>: the password is verified before the active
  flag is read. Whenever a login is answered with \<open>Forbidden\<close>, a deactivated account
  with that e-mail exists and the given password verifies against its digest.
\<close>

theorem login_inactive_wrong_password:
  "(unique_emails d \<and> u \<in> set (users d) \<and> email u = lower e \<and> \<not> is_active u
      \<and> \<not> verify_password ctx p (hashed_password u)
     \<longrightarrow> login ctx cfg rt h a \<lparr>ul_email = e, ul_password = p\<rparr> d = (Inl Unauthorized, d))
   \<and> (fst (login ctx cfg rt h a \<lparr>ul_email = e, ul_password = p\<rparr> d) = Inl Forbidden
     \<longrightarrow> (\<exists>v\<in>set (users d). email v = lower e \<and> \<not> is_active v
            \<and> verify_password ctx p (hashed_password v)))"
proof (intro conjI impI)
  assume a: "unique_emails d \<and> u \<in> set (users d) \<and> email u = lower e \<and> \<not> is_active u
      \<and> \<not> verify_password ctx p (hashed_password u)"
  then have "find (\<lambda>x. email x = lower e) (users d) = Some u"
    using find_email_Some [of d u] by simp
  with a show "login ctx cfg rt h a \<lparr>ul_email = e, ul_password = p\<rparr> d = (Inl Unauthorized, d)"
    by (simp add: login_def Unauthorized_def)
next
  assume f: "fst (login ctx cfg rt h a \<lparr>ul_email = e, ul_password = p\<rparr> d) = Inl Forbidden"
  show "\<exists>v\<in>set (users d). email v = lower e \<and> \<not> is_active v
            \<and> verify_password ctx p (hashed_password v)"
  proof (cases "find (\<lambda>x. email x = lower e) (users d)")
    case None
    with f show ?thesis by (simp add: login_def Forbidden_def)
  next
    case (Some v)
    then have v: "v \<in> set (users d)" "email v = lower e"
      by (auto simp: find_Some_iff)
    from f Some have "\<not> is_active v \<and> verify_password ctx p (hashed_password v)"
      by (auto simp: login_def Forbidden_def Let_def split: if_splits option.splits)
    with v show ?thesis by blast
  qed
qed

theorem login_inactive_wrong_password_witness:
  "unique_emails sample_db \<and> bob \<in> set (users sample_db) \<and> email bob = lower ''bob@vysusgroup.com''
   \<and> \<not> is_active bob \<and> \<not> verify_password plaintext_context ''WrongPass999'' (hashed_password bob)
   \<and> login plaintext_context default_settings sample_runtime None ''curl''
        \<lparr>ul_email = ''bob@vysusgroup.com'', ul_password = ''WrongPass999''\<rparr> sample_db
      = (Inl Unauthorized, sample_db)
   \<and> fst (login plaintext_context default_settings sample_runtime None ''curl''
        \<lparr>ul_email = ''bob@vysusgroup.com'', ul_password = ''BobsPass456''\<rparr> sample_db)
      = Inl Forbidden
   \<and> (\<exists>v\<in>set (users sample_db). email v = lower ''bob@vysusgroup.com'' \<and> \<not> is_active v
            \<and> verify_password plaintext_context ''BobsPass456'' (hashed_password v))"
proof -
  have h: "unique_emails sample_db \<and> bob \<in> set (users sample_db) \<and> email bob = lower ''bob@vysusgroup.com''
   \<and> \<not> is_active bob \<and> \<not> verify_password plaintext_context ''WrongPass999'' (hashed_password bob)"
    by (simp add: unique_emails_def verify_password_def sample_defs string_defs)
  have f: "fst (login plaintext_context default_settings sample_runtime None ''curl''
        \<lparr>ul_email = ''bob@vysusgroup.com'', ul_password = ''BobsPass456''\<rparr> sample_db)
      = Inl Forbidden"
    by (simp add: login_def Forbidden_def verify_password_def sample_defs string_defs)
  from login_inactive_wrong_password [of sample_db bob "''bob@vysusgroup.com''" plaintext_context
      "''WrongPass999''" default_settings sample_runtime None "''curl''"]
    login_inactive_wrong_password [of sample_db bob "''bob@vysusgroup.com''" plaintext_context
      "''BobsPass456''" default_settings sample_runtime None "''curl''"]
    h f
  show ?thesis by simp
qed

lemma no_consumable_find:
  "\<forall>x\<in>set (password_reset_tokens d). token x = t \<longrightarrow> used x \<or> t_expires_at x \<le> utcnow rt
   \<Longrightarrow> find (\<lambda>x. token x = t \<and> used x = False \<and> t_expires_at x > utcnow rt)
         (password_reset_tokens d) = None"
  by (auto simp: find_None_iff)

section \<open>Order of the checks of the reset-password route (C7)\<close>




section \<open>Public paths of the middleware (C9)\<close>







section \<open>The middleware on protected paths (C5)\<close>

text \<open>
  C5, as stated, fails in the case of a fault: when the lookup raises, the middleware answers
  with the redirect alone and deletes no cookie. Here the path is protected, the cookie
  \<open>stale\<close> belongs to no session, and the store cannot be reached.
\<close>

theorem dispatch_fault_counterexample:
  "\<not> list_ex (startswith ''/training-plan.html'') PUBLIC_PATHS
   \<and> fst (get_current_user_from_cookie sample_runtime ''stale'' sample_db) = None
   \<and> dispatch sample_runtime True ''/training-plan.html'' (Some ''stale'') sample_db
       = (RedirectResponse ''/login'' 302 [], sample_db)"
  by (simp add: dispatch_def get_current_user_from_cookie_def PUBLIC_PATHS_def startswith_def
      sample_defs)

text \<open>
  C5, amended. For a request to a protected path with a non-empty \<open>session_token\<close>
  cookie: when the lookup returns no account, the middleware answers with a 302 redirect to
  \<open>/login\<close> that deletes the \<open>session_token\<close> cookie; when the lookup raises, the
  middleware answers with the 302 redirect to \<open>/login\<close> without a cookie instruction. In
  both cases the request is not handed on, and the store is unchanged.
\<close>

theorem dispatch_unresolved:
  assumes "\<not> list_ex (startswith path) PUBLIC_PATHS" and "tok \<noteq> []"
  shows "(fst (get_current_user_from_cookie rt tok d) = None \<longrightarrow>
            dispatch rt False path (Some tok) d
              = (RedirectResponse ''/login'' 302 [''session_token''], d))
       \<and> dispatch rt True path (Some tok) d = (RedirectResponse ''/login'' 302 [], d)
       \<and> (fst (get_current_user_from_cookie rt tok d) = None \<or> fault \<longrightarrow>
            (\<forall>u. fst (dispatch rt fault path (Some tok) d) \<noteq> CallNext u))"
  using assms
  by (auto simp: dispatch_def get_current_user_from_cookie_def split: option.splits)

theorem dispatch_unresolved_witness:
  "\<not> list_ex (startswith ''/training-plan.html'') PUBLIC_PATHS \<and> ''stale'' \<noteq> []
   \<and> fst (get_current_user_from_cookie sample_runtime ''stale'' sample_db) = None
   \<and> dispatch sample_runtime False ''/training-plan.html'' (Some ''stale'') sample_db
       = (RedirectResponse ''/login'' 302 [''session_token''], sample_db)
   \<and> dispatch sample_runtime True ''/training-plan.html'' (Some ''stale'') sample_db
       = (RedirectResponse ''/login'' 302 [], sample_db)"
proof -
  have h1: "\<not> list_ex (startswith ''/training-plan.html'') PUBLIC_PATHS"
    by (simp add: PUBLIC_PATHS_def startswith_def)
  have h2: "''stale'' \<noteq> []" by simp
  have h3: "fst (get_current_user_from_cookie sample_runtime ''stale'' sample_db) = None"
    by (simp add: get_current_user_from_cookie_def sample_defs)
  from dispatch_unresolved [OF h1 h2, of sample_runtime sample_db] h1 h2 h3
  show ?thesis by simp
qed

section \<open>Resolution of a session token (C4)\<close>

lemma find_SomeD:
  "find P xs = Some x \<Longrightarrow> x \<in> set xs \<and> P x"
  by (auto simp: find_Some_iff)

lemma get_current_user_from_cookie_SomeD:
  assumes "fst (get_current_user_from_cookie rt tok d) = Some u"
  shows "tok \<noteq> [] \<and> u \<in> set (users d) \<and> is_active u
         \<and> (\<exists>s\<in>set (sessions d). session_token s = tok \<and> utcnow rt < s_expires_at s
               \<and> u_id u = s_user_id s)"
proof -
  from assms have tok: "tok \<noteq> []"
    by (auto simp: get_current_user_from_cookie_def)
  with assms obtain s where
    s: "find (\<lambda>s. session_token s = tok \<and> s_expires_at s > utcnow rt) (sessions d) = Some s"
    by (cases "find (\<lambda>s. session_token s = tok \<and> s_expires_at s > utcnow rt) (sessions d)")
       (auto simp: get_current_user_from_cookie_def)
  with assms tok have u: "find (\<lambda>u. u_id u = s_user_id s \<and> is_active u = True) (users d) = Some u"
    by (simp add: get_current_user_from_cookie_def)
  from find_SomeD [OF s] find_SomeD [OF u] tok show ?thesis by auto
qed

lemma find_session_unique:
  assumes "unique_session_tokens d" and "s \<in> set (sessions d)"
  shows "find (\<lambda>x. session_token x = session_token s \<and> s_expires_at x > now) (sessions d)
           = (if s_expires_at s > now then Some s else None)"
  using assms unfolding unique_session_tokens_def
  by (rule find_unique_key)

text \<open>
  C4. With session tokens unique, as the schema demands,
  \<open>get_current_user_from_cookie\<close> returns an account exactly when the token is not
  empty, some session row has this token and an expiry later than now, and a user row
  with the session's owner id and \<open>is_active\<close> exists. The account returned is such a
  row. In every other case the result is \<open>None\<close>, and in every case the store after
  the call is the store before it.
\<close>

theorem get_current_user_from_cookie_iff:
  assumes "unique_session_tokens d"
  shows "(fst (get_current_user_from_cookie rt tok d) \<noteq> None \<longleftrightarrow>
            tok \<noteq> [] \<and>
            (\<exists>s\<in>set (sessions d). session_token s = tok \<and> utcnow rt < s_expires_at s
               \<and> (\<exists>u\<in>set (users d). u_id u = s_user_id s \<and> is_active u)))
       \<and> (\<forall>u. fst (get_current_user_from_cookie rt tok d) = Some u \<longrightarrow>
            u \<in> set (users d) \<and> is_active u
            \<and> (\<exists>s\<in>set (sessions d). session_token s = tok \<and> utcnow rt < s_expires_at s
                 \<and> u_id u = s_user_id s))
       \<and> snd (get_current_user_from_cookie rt tok d) = d"
proof -
  have unchanged: "snd (get_current_user_from_cookie rt tok d) = d"
    by (simp add: get_current_user_from_cookie_def split: option.splits)
  have which: "\<forall>u. fst (get_current_user_from_cookie rt tok d) = Some u \<longrightarrow>
            u \<in> set (users d) \<and> is_active u
            \<and> (\<exists>s\<in>set (sessions d). session_token s = tok \<and> utcnow rt < s_expires_at s
                 \<and> u_id u = s_user_id s)"
    using get_current_user_from_cookie_SomeD by blast
  have "fst (get_current_user_from_cookie rt tok d) \<noteq> None \<longleftrightarrow>
            tok \<noteq> [] \<and>
            (\<exists>s\<in>set (sessions d). session_token s = tok \<and> utcnow rt < s_expires_at s
               \<and> (\<exists>u\<in>set (users d). u_id u = s_user_id s \<and> is_active u))"
    (is "?L \<longleftrightarrow> ?R")
  proof
    assume ?L
    then obtain u where "fst (get_current_user_from_cookie rt tok d) = Some u" by blast
    from get_current_user_from_cookie_SomeD [OF this] show ?R by blast
  next
    assume ?R
    then obtain s u where tok: "tok \<noteq> []" and s: "s \<in> set (sessions d)" "session_token s = tok"
      "utcnow rt < s_expires_at s" and u: "u \<in> set (users d)" "u_id u = s_user_id s" "is_active u"
      by blast
    have "find (\<lambda>x. session_token x = tok \<and> s_expires_at x > utcnow rt) (sessions d) = Some s"
      using find_session_unique [OF assms s(1), of "utcnow rt"] s by simp
    moreover have "find (\<lambda>x. u_id x = s_user_id s \<and> is_active x = True) (users d) \<noteq> None"
      using u by (auto simp: find_None_iff)
    ultimately show ?L
      using tok by (simp add: get_current_user_from_cookie_def)
  qed
  with which unchanged show ?thesis by blast
qed

theorem get_current_user_from_cookie_iff_witness:
  "unique_session_tokens sample_db
   \<and> fst (get_current_user_from_cookie sample_runtime ''sess-alice'' sample_db) = Some alice
   \<and> alice \<in> set (users sample_db) \<and> is_active alice
   \<and> fst (get_current_user_from_cookie sample_runtime ''sess-bob'' sample_db) = None
   \<and> snd (get_current_user_from_cookie sample_runtime ''sess-alice'' sample_db) = sample_db"
proof -
  have h: "unique_session_tokens sample_db"
    by (simp add: unique_session_tokens_def sample_defs)
  have a: "fst (get_current_user_from_cookie sample_runtime ''sess-alice'' sample_db) = Some alice"
    by (simp add: get_current_user_from_cookie_def sample_defs)
  have b: "\<not> (\<exists>s\<in>set (sessions sample_db). session_token s = ''sess-bob''
              \<and> utcnow sample_runtime < s_expires_at s
              \<and> (\<exists>u\<in>set (users sample_db). u_id u = s_user_id s \<and> is_active u))"
    by (simp add: sample_defs)
  from get_current_user_from_cookie_iff [OF h, of sample_runtime "''sess-alice''"]
    get_current_user_from_cookie_iff [OF h, of sample_runtime "''sess-bob''"] h a b
  show ?thesis by auto
qed

section \<open>Consuming a reset token (C2, C1)\<close>

lemma unique_key_eq:
  "distinct (map f xs) \<Longrightarrow> x \<in> set xs \<Longrightarrow> y \<in> set xs \<Longrightarrow> f x = f y \<Longrightarrow> x = y"
  by (auto simp: distinct_map dest: inj_onD)








lemma post_reset_password_not_consumable:
  assumes "policy_conforming p"
    and "\<forall>y\<in>set (password_reset_tokens d). token y = t \<longrightarrow> used y \<or> t_expires_at y \<le> utcnow rt"
  shows "post_reset_password ctx rt t p d = (Inl InvalidOrExpired, d)"
proof -
  have "find (\<lambda>y. token y = t \<and> used y = False \<and> t_expires_at y > utcnow rt)
         (password_reset_tokens d) = None"
    using assms(2) by (rule no_consumable_find)
  then have "reset_password ctx rt \<lparr>rp_token = t, new_password = p\<rparr> d = (Inl InvalidOrExpired, d)"
    by (simp add: reset_password_def InvalidOrExpired_def)
  then show ?thesis
    by (simp add: post_reset_password_def ResetPasswordRequest_ok [OF assms(1)])
qed









section \<open>Issuing a reset token (C6)\<close>

lemma retire_none_unused:
  "filter (\<lambda>t. t_user_id t = uid \<and> \<not> used t)
     (map (\<lambda>t. if t_user_id t = uid \<and> used t = False then t\<lparr>used := True\<rparr> else t) ts) = []"
  by (induction ts) auto

lemma retire_other_account:
  "uid' \<noteq> uid \<Longrightarrow>
   filter (\<lambda>t. t_user_id t = uid' \<and> \<not> used t)
     (map (\<lambda>t. if t_user_id t = uid \<and> used t = False then t\<lparr>used := True\<rparr> else t) ts)
   = filter (\<lambda>t. t_user_id t = uid' \<and> \<not> used t) ts"
  by (induction ts) auto

lemma retire_keys:
  "t_id \<circ> (\<lambda>t. if t_user_id t = uid \<and> \<not> used t then t\<lparr>used := True\<rparr> else t) = t_id"
  "token \<circ> (\<lambda>t. if t_user_id t = uid \<and> \<not> used t then t\<lparr>used := True\<rparr> else t) = token"
  by (auto simp: fun_eq_iff)

lemma forgot_password_no_account:
  "find (\<lambda>u. email u = lower e) (users d) = None
   \<Longrightarrow> forgot_password cfg rt \<lparr>fp_email = e\<rparr> d = (Inr forgot_password_message, d)"
  by (simp add: forgot_password_def)

lemma forgot_password_inactive:
  "find (\<lambda>u. email u = lower e) (users d) = Some u \<Longrightarrow> \<not> is_active u
   \<Longrightarrow> forgot_password cfg rt \<lparr>fp_email = e\<rparr> d = (Inr forgot_password_message, d)"
  by (simp add: forgot_password_def)

lemma forgot_password_collision:
  "find (\<lambda>u. email u = lower e) (users d) = Some u \<Longrightarrow> is_active u
   \<Longrightarrow> uuid4 rt \<in> set (map t_id (password_reset_tokens d))
        \<or> token_urlsafe rt \<in> set (map token (password_reset_tokens d))
   \<Longrightarrow> forgot_password cfg rt \<lparr>fp_email = e\<rparr> d = (Inl IntegrityError, d)"
  by (simp add: forgot_password_def add_password_reset_token_def Let_def
      generate_password_reset_token_def retire_keys del: set_map)

lemma forgot_password_active:
  "find (\<lambda>u. email u = lower e) (users d) = Some u \<Longrightarrow> is_active u
   \<Longrightarrow> uuid4 rt \<notin> set (map t_id (password_reset_tokens d))
   \<Longrightarrow> token_urlsafe rt \<notin> set (map token (password_reset_tokens d))
   \<Longrightarrow> forgot_password cfg rt \<lparr>fp_email = e\<rparr> d =
       (Inr forgot_password_message,
        d\<lparr>password_reset_tokens :=
            map (\<lambda>t. if t_user_id t = u_id u \<and> used t = False then t\<lparr>used := True\<rparr> else t)
              (password_reset_tokens d)
            @ [\<lparr>t_id = uuid4 rt, t_user_id = u_id u, token = token_urlsafe rt,
                t_expires_at = get_password_reset_expiry cfg rt, used = False,
                t_created_at = utcnow rt\<rparr>]\<rparr>)"
  by (simp add: forgot_password_def add_password_reset_token_def Let_def
      generate_password_reset_token_def retire_keys del: set_map)


lemma forgot_password_outcomes:
  "forgot_password cfg rt \<lparr>fp_email = e\<rparr> d = (Inr forgot_password_message, d)
   \<or> forgot_password cfg rt \<lparr>fp_email = e\<rparr> d = (Inl IntegrityError, d)
   \<or> (\<exists>u\<in>set (users d). email u = lower e \<and> is_active u
         \<and> find (\<lambda>u. email u = lower e) (users d) = Some u
         \<and> uuid4 rt \<notin> set (map t_id (password_reset_tokens d))
         \<and> token_urlsafe rt \<notin> set (map token (password_reset_tokens d)))"
proof (cases "find (\<lambda>u. email u = lower e) (users d)")
  case None
  then show ?thesis by (simp add: forgot_password_no_account)
next
  case (Some u)
  show ?thesis
  proof (cases "is_active u")
    case False
    with Some show ?thesis by (simp add: forgot_password_inactive)
  next
    case True
    show ?thesis
    proof (cases "uuid4 rt \<in> set (map t_id (password_reset_tokens d))
        \<or> token_urlsafe rt \<in> set (map token (password_reset_tokens d))")
      case True
      from forgot_password_collision [OF Some \<open>is_active u\<close> True, of cfg] show ?thesis
        by simp
    next
      case False
      with find_SomeD [OF Some] Some True show ?thesis by blast
    qed
  qed
qed

lemma forgot_password_response:
  assumes "uuid4 rt \<notin> set (map t_id (password_reset_tokens d))"
    and "token_urlsafe rt \<notin> set (map token (password_reset_tokens d))"
  shows "fst (forgot_password cfg rt \<lparr>fp_email = e\<rparr> d) = Inr forgot_password_message"
proof (cases "find (\<lambda>u. email u = lower e) (users d)")
  case None
  then show ?thesis by (simp add: forgot_password_no_account)
next
  case (Some u)
  show ?thesis
  proof (cases "is_active u")
    case False
    with Some show ?thesis by (simp add: forgot_password_inactive)
  next
    case True
    from forgot_password_active [OF Some True assms, of cfg] show ?thesis by simp
  qed
qed

lemma forgot_password_changes_only_for_active:
  assumes "snd (forgot_password cfg rt \<lparr>fp_email = e\<rparr> d) \<noteq> d"
  shows "\<exists>u\<in>set (users d). email u = lower e \<and> is_active u"
  using forgot_password_outcomes [of cfg rt e d] assms by auto

lemma forgot_password_other_tables:
  "users (snd (forgot_password cfg rt \<lparr>fp_email = e\<rparr> d)) = users d
   \<and> sessions (snd (forgot_password cfg rt \<lparr>fp_email = e\<rparr> d)) = sessions d"
proof -
  from forgot_password_outcomes [of cfg rt e d]
  consider "snd (forgot_password cfg rt \<lparr>fp_email = e\<rparr> d) = d"
    | u where "find (\<lambda>u. email u = lower e) (users d) = Some u" "is_active u"
        "uuid4 rt \<notin> set (map t_id (password_reset_tokens d))"
        "token_urlsafe rt \<notin> set (map token (password_reset_tokens d))"
    by auto
  then show ?thesis
  proof cases
    case 1
    then show ?thesis by simp
  next
    case 2
    from forgot_password_active [OF 2, of cfg] show ?thesis by simp
  qed
qed

lemma unused_after_issue:
  assumes "password_reset_tokens d' =
      map (\<lambda>t. if t_user_id t = uid \<and> used t = False then t\<lparr>used := True\<rparr> else t)
        (password_reset_tokens d) @ [n]"
    and "t_user_id n = uid" and "\<not> used n"
  shows "unused_tokens_of uid d' = [n]"
    and "uid' \<noteq> uid \<Longrightarrow> unused_tokens_of uid' d' = unused_tokens_of uid' d"
  using assms retire_none_unused [of uid "password_reset_tokens d"]
    retire_other_account [of uid' uid "password_reset_tokens d"]
  by (simp_all add: unused_tokens_of_def)

lemma at_most_one_after_issue:
  assumes "password_reset_tokens d' =
      map (\<lambda>t. if t_user_id t = uid \<and> used t = False then t\<lparr>used := True\<rparr> else t)
        (password_reset_tokens d) @ [n]"
    and "t_user_id n = uid" and "\<not> used n" and "at_most_one_unused d"
  shows "at_most_one_unused d'"
proof -
  have "length (unused_tokens_of (t_user_id y) d') \<le> 1" if y: "y \<in> set (password_reset_tokens d')" for y
  proof (cases "t_user_id y = uid")
    case True
    then show ?thesis using unused_after_issue(1) [OF assms(1-3)] by simp
  next
    case False
    with y assms(1,2) obtain z where z: "z \<in> set (password_reset_tokens d)"
      "t_user_id z = t_user_id y" by (auto split: if_splits)
    from z(1) assms(4) have "length (unused_tokens_of (t_user_id z) d) \<le> 1"
      by (simp add: at_most_one_unused_def list_all_iff)
    with unused_after_issue(2) [OF assms(1-3) False] z(2) show ?thesis by simp
  qed
  then show ?thesis by (simp add: at_most_one_unused_def list_all_iff)
qed

lemma older_links_retired:
  assumes "password_reset_tokens d' =
      map (\<lambda>t. if t_user_id t = uid \<and> used t = False then t\<lparr>used := True\<rparr> else t)
        (password_reset_tokens d) @ [n]"
    and "token n \<notin> set (map token (password_reset_tokens d))"
    and "unique_reset_tokens d" and "x \<in> set (password_reset_tokens d)" and "t_user_id x = uid"
  shows "\<forall>y\<in>set (password_reset_tokens d'). token y = token x \<longrightarrow> used y"
proof (intro ballI impI)
  fix y assume y: "y \<in> set (password_reset_tokens d')" "token y = token x"
  from assms(2,4) have "token n \<noteq> token x" by auto
  with y assms(1) obtain z where z: "z \<in> set (password_reset_tokens d)"
    "y = (if t_user_id z = uid \<and> used z = False then z\<lparr>used := True\<rparr> else z)" by auto
  with y(2) have "token z = token x" by (simp split: if_splits)
  with unique_key_eq [of token "password_reset_tokens d" z x] assms(3,4) z(1)
  have "z = x" by (simp add: unique_reset_tokens_def)
  with z(2) assms(5) show "used y" by (simp split: if_splits)
qed

text \<open>
  C6. When the minted row id and token collide with no stored reset token,
  \<open>forgot_password\<close> answers every e-mail, known, unknown or deactivated, with the
  same acknowledgment. The store changes only if an active account has the e-mail, and
  then only its reset tokens: for an active account \<open>u\<close> every earlier row is kept, with
  \<open>used\<close> set on those of \<open>u\<close> that were unused, and one new unused row of \<open>u\<close> is
  appended. Afterwards the new row is the only unused reset token of \<open>u\<close>, and, tokens
  being unique, the token of any earlier row of \<open>u\<close> is refused by the reset-password
  route with \<open>InvalidOrExpired\<close> at any time. A store with at most one unused reset
  token per account stays so.
\<close>

theorem forgot_password_retires:
  "(uuid4 rt \<notin> set (map t_id (password_reset_tokens d))
      \<and> token_urlsafe rt \<notin> set (map token (password_reset_tokens d))
     \<longrightarrow> fst (forgot_password cfg rt \<lparr>fp_email = e\<rparr> d) = Inr forgot_password_message)
   \<and> (snd (forgot_password cfg rt \<lparr>fp_email = e\<rparr> d) \<noteq> d
     \<longrightarrow> (\<exists>v\<in>set (users d). email v = lower e \<and> is_active v))
   \<and> users (snd (forgot_password cfg rt \<lparr>fp_email = e\<rparr> d)) = users d
   \<and> sessions (snd (forgot_password cfg rt \<lparr>fp_email = e\<rparr> d)) = sessions d
   \<and> (at_most_one_unused d
     \<longrightarrow> at_most_one_unused (snd (forgot_password cfg rt \<lparr>fp_email = e\<rparr> d)))
   \<and> (unique_emails d \<and> u \<in> set (users d) \<and> email u = lower e \<and> is_active u
       \<and> uuid4 rt \<notin> set (map t_id (password_reset_tokens d))
       \<and> token_urlsafe rt \<notin> set (map token (password_reset_tokens d))
     \<longrightarrow> password_reset_tokens (snd (forgot_password cfg rt \<lparr>fp_email = e\<rparr> d)) =
           map (\<lambda>t. if t_user_id t = u_id u \<and> used t = False then t\<lparr>used := True\<rparr> else t)
             (password_reset_tokens d)
           @ [\<lparr>t_id = uuid4 rt, t_user_id = u_id u, token = token_urlsafe rt,
               t_expires_at = utcnow rt + password_reset_expire_hours cfg * 60 * 60,
               used = False, t_created_at = utcnow rt\<rparr>]
         \<and> unused_tokens_of (u_id u) (snd (forgot_password cfg rt \<lparr>fp_email = e\<rparr> d)) =
             [\<lparr>t_id = uuid4 rt, t_user_id = u_id u, token = token_urlsafe rt,
               t_expires_at = utcnow rt + password_reset_expire_hours cfg * 60 * 60,
               used = False, t_created_at = utcnow rt\<rparr>]
         \<and> (unique_reset_tokens d \<longrightarrow>
              (\<forall>x\<in>set (password_reset_tokens d). t_user_id x = u_id u \<longrightarrow>
                 (\<forall>ctx rt' p. policy_conforming p \<longrightarrow>
                    post_reset_password ctx rt' (token x) p
                      (snd (forgot_password cfg rt \<lparr>fp_email = e\<rparr> d))
                    = (Inl InvalidOrExpired, snd (forgot_password cfg rt \<lparr>fp_email = e\<rparr> d))))))"
proof -
  define d' where "d' = snd (forgot_password cfg rt \<lparr>fp_email = e\<rparr> d)"
  define n where "n = \<lparr>t_id = uuid4 rt, t_user_id = u_id u, token = token_urlsafe rt,
               t_expires_at = utcnow rt + password_reset_expire_hours cfg * 60 * 60,
               used = False, t_created_at = utcnow rt\<rparr>"
  have resp: "uuid4 rt \<notin> set (map t_id (password_reset_tokens d))
      \<and> token_urlsafe rt \<notin> set (map token (password_reset_tokens d))
     \<longrightarrow> fst (forgot_password cfg rt \<lparr>fp_email = e\<rparr> d) = Inr forgot_password_message"
    using forgot_password_response by blast
  have only: "d' \<noteq> d \<longrightarrow> (\<exists>v\<in>set (users d). email v = lower e \<and> is_active v)"
    unfolding d'_def using forgot_password_changes_only_for_active by blast
  have other: "users d' = users d" "sessions d' = sessions d"
    unfolding d'_def using forgot_password_other_tables [of cfg rt e d] by simp_all
  have inv: "at_most_one_unused d \<longrightarrow> at_most_one_unused d'"
  proof
    assume a: "at_most_one_unused d"
    from forgot_password_outcomes [of cfg rt e d]
    consider "d' = d"
      | v where "find (\<lambda>u. email u = lower e) (users d) = Some v" "is_active v"
          "uuid4 rt \<notin> set (map t_id (password_reset_tokens d))"
          "token_urlsafe rt \<notin> set (map token (password_reset_tokens d))"
      unfolding d'_def by auto
    then show "at_most_one_unused d'"
    proof cases
      case 1
      with a show ?thesis by simp
    next
      case 2
      from forgot_password_active [OF 2, of cfg]
      have "password_reset_tokens d' =
        map (\<lambda>t. if t_user_id t = u_id v \<and> used t = False then t\<lparr>used := True\<rparr> else t)
          (password_reset_tokens d)
        @ [\<lparr>t_id = uuid4 rt, t_user_id = u_id v, token = token_urlsafe rt,
            t_expires_at = get_password_reset_expiry cfg rt, used = False,
            t_created_at = utcnow rt\<rparr>]"
        unfolding d'_def by simp
      from at_most_one_after_issue [OF this _ _ a] show ?thesis by simp
    qed
  qed
  have act: "unique_emails d \<and> u \<in> set (users d) \<and> email u = lower e \<and> is_active u
       \<and> uuid4 rt \<notin> set (map t_id (password_reset_tokens d))
       \<and> token_urlsafe rt \<notin> set (map token (password_reset_tokens d))
     \<longrightarrow> password_reset_tokens d' =
           map (\<lambda>t. if t_user_id t = u_id u \<and> used t = False then t\<lparr>used := True\<rparr> else t)
             (password_reset_tokens d) @ [n]
         \<and> unused_tokens_of (u_id u) d' = [n]
         \<and> (unique_reset_tokens d \<longrightarrow>
              (\<forall>x\<in>set (password_reset_tokens d). t_user_id x = u_id u \<longrightarrow>
                 (\<forall>ctx rt' p. policy_conforming p \<longrightarrow>
                    post_reset_password ctx rt' (token x) p d' = (Inl InvalidOrExpired, d'))))"
  proof
    assume h: "unique_emails d \<and> u \<in> set (users d) \<and> email u = lower e \<and> is_active u
       \<and> uuid4 rt \<notin> set (map t_id (password_reset_tokens d))
       \<and> token_urlsafe rt \<notin> set (map token (password_reset_tokens d))"
    then have fu: "find (\<lambda>x. email x = lower e) (users d) = Some u"
      using find_email_Some [of d u] by simp
    from h have fresh: "uuid4 rt \<notin> set (map t_id (password_reset_tokens d))"
      "token_urlsafe rt \<notin> set (map token (password_reset_tokens d))" and active: "is_active u"
      by simp_all
    from forgot_password_active [OF fu active fresh, of cfg]
    have toks: "password_reset_tokens d' =
           map (\<lambda>t. if t_user_id t = u_id u \<and> used t = False then t\<lparr>used := True\<rparr> else t)
             (password_reset_tokens d) @ [n]"
      unfolding d'_def n_def by (simp add: get_password_reset_expiry_def)
    have nf: "t_user_id n = u_id u" "\<not> used n" "token n = token_urlsafe rt"
      by (simp_all add: n_def)
    have one: "unused_tokens_of (u_id u) d' = [n]"
      using toks nf(1,2) by (rule unused_after_issue(1))
    have old: "unique_reset_tokens d \<longrightarrow>
              (\<forall>x\<in>set (password_reset_tokens d). t_user_id x = u_id u \<longrightarrow>
                 (\<forall>ctx rt' p. policy_conforming p \<longrightarrow>
                    post_reset_password ctx rt' (token x) p d' = (Inl InvalidOrExpired, d')))"
    proof (intro impI ballI allI)
      fix x and ctx :: pwd_context and rt' :: runtime and p
      assume uq: "unique_reset_tokens d" and x: "x \<in> set (password_reset_tokens d)"
        "t_user_id x = u_id u" and p: "policy_conforming p"
      from fresh(2) nf(3) have "token n \<notin> set (map token (password_reset_tokens d))" by simp
      from older_links_retired [OF toks this uq x]
      have "\<forall>y\<in>set (password_reset_tokens d').
          token y = token x \<longrightarrow> used y \<or> t_expires_at y \<le> utcnow rt'" by blast
      with p show "post_reset_password ctx rt' (token x) p d' = (Inl InvalidOrExpired, d')"
        by (rule post_reset_password_not_consumable)
    qed
    from toks one old
    show "password_reset_tokens d' =
           map (\<lambda>t. if t_user_id t = u_id u \<and> used t = False then t\<lparr>used := True\<rparr> else t)
             (password_reset_tokens d) @ [n]
         \<and> unused_tokens_of (u_id u) d' = [n]
         \<and> (unique_reset_tokens d \<longrightarrow>
              (\<forall>x\<in>set (password_reset_tokens d). t_user_id x = u_id u \<longrightarrow>
                 (\<forall>ctx rt' p. policy_conforming p \<longrightarrow>
                    post_reset_password ctx rt' (token x) p d' = (Inl InvalidOrExpired, d'))))"
      by (intro conjI)
  qed
  from resp only other inv act show ?thesis unfolding d'_def n_def by (intro conjI)
qed

theorem forgot_password_retires_witness:
  "uuid4 sample_runtime \<notin> set (map t_id (password_reset_tokens sample_db))
   \<and> token_urlsafe sample_runtime \<notin> set (map token (password_reset_tokens sample_db))
   \<and> unique_emails sample_db \<and> alice \<in> set (users sample_db)
   \<and> email alice = lower ''alice@vysusgroup.com'' \<and> is_active alice
   \<and> unique_reset_tokens sample_db \<and> at_most_one_unused sample_db
   \<and> alice_reset \<in> set (password_reset_tokens sample_db) \<and> t_user_id alice_reset = u_id alice
   \<and> policy_conforming ''NewPass1234''
   \<and> fst (forgot_password default_settings sample_runtime
            \<lparr>fp_email = ''alice@vysusgroup.com''\<rparr> sample_db) = Inr forgot_password_message
   \<and> unused_tokens_of (u_id alice)
        (snd (forgot_password default_settings sample_runtime
               \<lparr>fp_email = ''alice@vysusgroup.com''\<rparr> sample_db))
      = [\<lparr>t_id = 30, t_user_id = 1, token = ''fresh-token'', t_expires_at = 3700,
          used = False, t_created_at = 100\<rparr>]
   \<and> at_most_one_unused (snd (forgot_password default_settings sample_runtime
               \<lparr>fp_email = ''alice@vysusgroup.com''\<rparr> sample_db))
   \<and> fst (post_reset_password plaintext_context sample_runtime (token alice_reset) ''NewPass1234''
        (snd (forgot_password default_settings sample_runtime
               \<lparr>fp_email = ''alice@vysusgroup.com''\<rparr> sample_db))) = Inl InvalidOrExpired"
proof -
  have h1: "uuid4 sample_runtime \<notin> set (map t_id (password_reset_tokens sample_db))"
    by (simp add: sample_defs)
  have h2: "token_urlsafe sample_runtime \<notin> set (map token (password_reset_tokens sample_db))"
    by (simp add: sample_defs)
  have h3: "unique_emails sample_db" by (simp add: unique_emails_def sample_defs)
  have h4: "alice \<in> set (users sample_db)" by (simp add: sample_db_def)
  have h5: "email alice = lower ''alice@vysusgroup.com''" by (simp add: sample_defs string_defs)
  have h6: "is_active alice" by (simp add: alice_def)
  have h7: "unique_reset_tokens sample_db" by (simp add: unique_reset_tokens_def sample_defs)
  have h8: "at_most_one_unused sample_db"
    by (simp add: at_most_one_unused_def unused_tokens_of_def sample_defs)
  have h9: "alice_reset \<in> set (password_reset_tokens sample_db)" by (simp add: sample_db_def)
  have h10: "t_user_id alice_reset = u_id alice" by (simp add: sample_defs)
  have h11: "policy_conforming ''NewPass1234''" by (simp add: policy_conforming_def string_defs)
  note th = forgot_password_retires [of sample_runtime sample_db default_settings
      "''alice@vysusgroup.com''" alice]
  note resp = th [THEN conjunct1, rule_format, OF conjI, OF h1 h2]
  note inv = th [THEN conjunct2, THEN conjunct2, THEN conjunct2, THEN conjunct2,
      THEN conjunct1, rule_format, OF h8]
  have hyp: "unique_emails sample_db \<and> alice \<in> set (users sample_db)
       \<and> email alice = lower ''alice@vysusgroup.com'' \<and> is_active alice
       \<and> uuid4 sample_runtime \<notin> set (map t_id (password_reset_tokens sample_db))
       \<and> token_urlsafe sample_runtime \<notin> set (map token (password_reset_tokens sample_db))"
    using h1 h2 h3 h4 h5 h6 by (intro conjI)
  note act = th [THEN conjunct2, THEN conjunct2, THEN conjunct2, THEN conjunct2,
      THEN conjunct2, THEN mp, OF hyp]
  from act [THEN conjunct2, THEN conjunct1]
  have one: "unused_tokens_of (u_id alice)
        (snd (forgot_password default_settings sample_runtime
               \<lparr>fp_email = ''alice@vysusgroup.com''\<rparr> sample_db))
      = [\<lparr>t_id = 30, t_user_id = 1, token = ''fresh-token'', t_expires_at = 3700,
          used = False, t_created_at = 100\<rparr>]"
    by (simp add: sample_defs)
  from act [THEN conjunct2, THEN conjunct2, THEN mp, OF h7, rule_format, OF h9 h10 h11,
      of plaintext_context sample_runtime]
  have old: "fst (post_reset_password plaintext_context sample_runtime (token alice_reset)
        ''NewPass1234''
        (snd (forgot_password default_settings sample_runtime
               \<lparr>fp_email = ''alice@vysusgroup.com''\<rparr> sample_db))) = Inl InvalidOrExpired"
    by simp
  from h1 h2 h3 h4 h5 h6 h7 h8 h9 h10 h11 resp one inv old show ?thesis by (intro conjI)
qed

section \<open>The happy paths on the sample store\<close>

text \<open>
  The scenario of the specification, evaluated: a registration on the empty store, a
  login of Alice that adds one session expiring after seven days and sets the cookie, and
  a logout after which her session token resolves to nothing.
\<close>

lemmas handler_defs =
  post_register_def UserCreate_def validate_vysus_email_def UserCreate_validate_password_def
  register_def add_user_def hash_password_def login_def verify_password_def add_session_def
  generate_session_token_def get_session_expiry_def logout_def get_current_user_from_cookie_def

lemma scenario_register:
  "post_register plaintext_context \<lparr>utcnow = 5, uuid4 = 1, token_urlsafe = ''unused'', salt = ''s''\<rparr>
     ''Alice@VysusGroup.com'' ''GoodPass123'' (Some ''Alice'')
     \<lparr>users = [], sessions = [], password_reset_tokens = []\<rparr>
   = (Inr ''Registration successful. You can now log in.'',
      \<lparr>users = [\<lparr>u_id = 1, email = ''alice@vysusgroup.com'', hashed_password = ''GoodPass123'',
                 full_name = Some ''Alice'', is_active = True, u_created_at = 5,
                 updated_at = 5\<rparr>],
       sessions = [], password_reset_tokens = []\<rparr>)"
  by (simp add: handler_defs plaintext_context_def string_defs)

lemma scenario_login:
  "login plaintext_context default_settings sample_runtime (Some ''10.0.0.1'') ''curl''
     \<lparr>ul_email = ''Alice@vysusgroup.com'', ul_password = ''GoodPass123''\<rparr> sample_db
   = (Inr (alice, \<lparr>key = ''session_token'', cookie_value = ''fresh-token'', httponly = True,
                  secure = False, samesite = ''lax'', max_age = 604800\<rparr>),
      sample_db\<lparr>sessions := sessions sample_db @
        [\<lparr>s_id = 30, s_user_id = 1, session_token = ''fresh-token'', s_expires_at = 604900,
          s_created_at = 100, ip_address = Some ''10.0.0.1'', user_agent = ''curl''\<rparr>]\<rparr>)"
  by (simp add: handler_defs sample_defs string_defs Let_def)

lemma scenario_logout:
  "fst (get_current_user_from_cookie sample_runtime ''sess-alice'' sample_db) = Some alice
   \<and> fst (get_current_user_from_cookie sample_runtime ''sess-alice''
            (snd (logout (Some ''sess-alice'') sample_db))) = None"
  by (simp add: handler_defs sample_defs)

end
